theory Spec2Isabelle
  imports Main "HOL-Library.Sublist" "HOL-Library.AList"
begin

section \<open>Values, exceptions and library functions\<close>

text \<open>
  The external-sources server (\<^verbatim>\<open>testin-ext-sources/server/server.py\<close>) receives its
  arguments as decoded JSON. A Python string is modelled as the list of its code points,
  so that lengths and slices count characters as Python does and every character of a
  Python string can be written, the white space beyond ASCII and the lone surrogates
  included; \<open>lit\<close> embeds a string literal. A JSON object is a Python \<^verbatim>\<open>dict\<close>:
  insertion ordered, modelled as an association list in which the first binding of a key
  is the one the lookups see. Numbers are Python's unbounded integers; fractional numbers
  are not modelled. A source name with a leading underscore (\<^verbatim>\<open>_coerce_int\<close>) loses it
  here.
\<close>

type_synonym pystr = "nat list"

definition lit :: "string \<Rightarrow> pystr" where
  "lit s = map of_char s"

datatype json =
    JNull
  | JBool bool
  | JNum int
  | JStr pystr
  | JArr "json list"
  | JObj "(pystr \<times> json) list"

type_synonym dict = "(pystr \<times> json) list"

text \<open>
  An exception is a value; the string is what \<^verbatim>\<open>str(e)\<close> gives. \<open>ValueError\<close> stands for
  the class with its subclasses (\<^verbatim>\<open>JSONDecodeError\<close>, \<^verbatim>\<open>UnicodeEncodeError\<close>),
  \<open>HTTPError\<close> for what httpx raises, \<open>MarkupError\<close> for what BeautifulSoup raises when
  \<^verbatim>\<open>html.parser\<close> rejects the markup.
\<close>

datatype py_exn =
    ValueError pystr
  | TypeError pystr
  | HTTPError pystr
  | RecursionError pystr
  | MarkupError pystr

fun str_of_exn :: "py_exn \<Rightarrow> pystr" where
  "str_of_exn (ValueError m) = m"
| "str_of_exn (TypeError m) = m"
| "str_of_exn (HTTPError m) = m"
| "str_of_exn (RecursionError m) = m"
| "str_of_exn (MarkupError m) = m"

record url_parts =
  scheme :: pystr
  netloc :: pystr
  path :: pystr

text \<open>
  What the program takes from Python's standard library, BeautifulSoup and httpx, as
  parameters: \<open>json_loads\<close> is \<^verbatim>\<open>json.loads\<close> (it raises \<^verbatim>\<open>JSONDecodeError\<close>, a
  \<^verbatim>\<open>ValueError\<close>, on text that is not JSON and \<^verbatim>\<open>RecursionError\<close> on deep nesting),
  \<open>int_of_str\<close> is \<^verbatim>\<open>int\<close> on a string (\<open>None\<close> when it raises \<^verbatim>\<open>ValueError\<close>), \<open>repr\<close>
  is \<^verbatim>\<open>str\<close> on a value that is not a string, \<open>lower\<close> is \<^verbatim>\<open>str.lower\<close>, \<open>urlparse\<close> and
  \<open>urljoin\<close> are those of \<^verbatim>\<open>urllib.parse\<close> (both raise \<^verbatim>\<open>ValueError\<close> on some inputs),
  \<open>find_anchors\<close> parses the markup and lists, in document order, the raw \<^verbatim>\<open>href\<close> and
  the stripped text of every \<^verbatim>\<open>a\<close> element that has an \<^verbatim>\<open>href\<close>, \<open>soup_text\<close> parses the
  markup and renders its text once the script, style, nav, footer and header elements
  are removed (both raise where the parser rejects the markup), and \<open>status_message\<close> is
  the message of the \<^verbatim>\<open>HTTPStatusError\<close> that \<^verbatim>\<open>raise_for_status\<close> builds from a status
  and a URL.
\<close>

record lib =
  json_loads :: "pystr \<Rightarrow> py_exn + json"
  int_of_str :: "pystr \<Rightarrow> int option"
  repr :: "json \<Rightarrow> pystr"
  lower :: "pystr \<Rightarrow> pystr"
  urlparse :: "pystr \<Rightarrow> py_exn + url_parts"
  urljoin :: "pystr \<Rightarrow> pystr \<Rightarrow> py_exn + pystr"
  find_anchors :: "pystr \<Rightarrow> py_exn + (pystr \<times> pystr) list"
  soup_text :: "pystr \<Rightarrow> py_exn + pystr"
  status_message :: "nat \<Rightarrow> pystr \<Rightarrow> pystr"

subsection \<open>Dictionaries\<close>

definition dict_has :: "pystr \<Rightarrow> dict \<Rightarrow> bool" where
  "dict_has k d = (map_of d k \<noteq> None)"

definition dict_get :: "dict \<Rightarrow> pystr \<Rightarrow> json \<Rightarrow> json" where
  "dict_get d k dflt = (case map_of d k of None \<Rightarrow> dflt | Some v \<Rightarrow> v)"

text \<open>\<^verbatim>\<open>d[k] = v\<close>: an existing key keeps its position, a new one goes last.\<close>

fun dict_set :: "pystr \<Rightarrow> json \<Rightarrow> dict \<Rightarrow> dict" where
  "dict_set k v [] = [(k, v)]"
| "dict_set k v (p # ps) = (if fst p = k then (k, v) # ps else p # dict_set k v ps)"

text \<open>\<^verbatim>\<open>for key in keys: if key in val: return f(val[key])\<close>, up to the \<open>f\<close>.\<close>

fun first_present :: "pystr list \<Rightarrow> dict \<Rightarrow> json option" where
  "first_present [] d = None"
| "first_present (k # ks) d = (case map_of d k of Some v \<Rightarrow> Some v | None \<Rightarrow> first_present ks d)"

subsection \<open>The builtins \<^verbatim>\<open>str\<close> and \<^verbatim>\<open>int\<close>\<close>

fun py_str :: "lib \<Rightarrow> json \<Rightarrow> pystr" where
  "py_str L (JStr s) = s"
| "py_str L v = repr L v"

fun py_int :: "lib \<Rightarrow> json \<Rightarrow> py_exn + int" where
  "py_int L (JNum n) = Inr n"
| "py_int L (JBool b) = Inr (if b then 1 else 0)"
| "py_int L (JStr s) =
     (case int_of_str L s of
        Some n \<Rightarrow> Inr n
      | None \<Rightarrow> Inl (ValueError (lit ''invalid literal for int() with base 10'')))"
| "py_int L v =
     Inl (TypeError (lit ''int() argument must be a string, a bytes-like object or a real number''))"

section \<open>Coercion of loosely typed arguments\<close>

definition coerce_str :: "lib \<Rightarrow> json \<Rightarrow> pystr" where
  "coerce_str L val =
     (case val of
        JObj d \<Rightarrow>
          (case first_present [lit ''url'', lit ''value'', lit ''text'', lit ''source_id''] d of
             Some v \<Rightarrow> py_str L v
           | None \<Rightarrow> (case d of p # _ \<Rightarrow> py_str L (snd p) | [] \<Rightarrow> py_str L val))
      | _ \<Rightarrow> py_str L val)"

text \<open>The \<^verbatim>\<open>try: return int(val) except (ValueError, TypeError): return default\<close> at the end.\<close>

definition int_or_default :: "lib \<Rightarrow> json \<Rightarrow> int \<Rightarrow> py_exn + int" where
  "int_or_default L val dflt =
     (case py_int L val of
        Inr n \<Rightarrow> Inr n
      | Inl (ValueError m) \<Rightarrow> Inr dflt
      | Inl (TypeError m) \<Rightarrow> Inr dflt
      | Inl e \<Rightarrow> Inl e)"

text \<open>In the \<^verbatim>\<open>dict\<close> branch the two \<^verbatim>\<open>return int(...)\<close> stand outside the \<^verbatim>\<open>try\<close>.\<close>

definition coerce_int :: "lib \<Rightarrow> json \<Rightarrow> int \<Rightarrow> py_exn + int" where
  "coerce_int L val dflt =
     (case val of
        JObj d \<Rightarrow>
          (case first_present [lit ''max_subpages'', lit ''max_subpages_per_source'', lit ''value''] d of
             Some v \<Rightarrow> py_int L v
           | None \<Rightarrow> (case d of p # _ \<Rightarrow> py_int L (snd p) | [] \<Rightarrow> int_or_default L val dflt))
      | _ \<Rightarrow> int_or_default L val dflt)"

section \<open>The findings store\<close>

text \<open>
  The cache document \<^verbatim>\<open>findings_cache.json\<close>, as \<^verbatim>\<open>_update_cache\<close> writes it: an
  object with the keys \<^verbatim>\<open>findings\<close> (a list of objects), \<^verbatim>\<open>crawlLog\<close> and
  \<^verbatim>\<open>lastUpdated\<close>. The file is \<open>None\<close> when it does not exist or does not hold JSON
  (an empty file among them).
\<close>

record cache =
  findings :: "dict list"
  crawlLog :: "json list"
  lastUpdated :: "pystr option"

type_synonym cache_file = "cache option"

definition read_cache :: "cache_file \<Rightarrow> cache" where
  "read_cache file =
     (case file of
        None \<Rightarrow> \<lparr>findings = [], crawlLog = [], lastUpdated = None\<rparr>
      | Some c \<Rightarrow> c)"

text \<open>
  What \<^verbatim>\<open>write_text(..., encoding="utf-8")\<close> can encode: \<^verbatim>\<open>json.dumps\<close> with
  \<^verbatim>\<open>ensure_ascii=False\<close> leaves the characters of keys and strings as they are, and a
  surrogate code point has no UTF-8 encoding.
\<close>

definition surrogate :: "nat \<Rightarrow> bool" where
  "surrogate c = (55296 \<le> c \<and> c \<le> 57343)"

definition encodable :: "pystr \<Rightarrow> bool" where
  "encodable s = list_all (\<lambda>c. \<not> surrogate c) s"

fun json_encodable :: "json \<Rightarrow> bool" where
  "json_encodable (JStr s) = encodable s"
| "json_encodable (JArr xs) = list_all json_encodable xs"
| "json_encodable (JObj d) = list_all (\<lambda>p. encodable (fst p) \<and> json_encodable (snd p)) d"
| "json_encodable v = True"

definition cache_encodable :: "cache \<Rightarrow> bool" where
  "cache_encodable c =
     (list_all (\<lambda>f. json_encodable (JObj f)) (findings c) \<and> list_all json_encodable (crawlLog c))"

text \<open>
  The readings of \<^verbatim>\<open>datetime.now()\<close> during one call of \<^verbatim>\<open>save_findings\<close>, as the
  ASCII text they are formatted to: \<open>stamp_time i\<close> is the ISO timestamp read when item
  \<open>i\<close> gets its \<^verbatim>\<open>savedAt\<close>, \<open>id_time i\<close> the \<^verbatim>\<open>%H%M%S\<close> reading when item \<open>i\<close> gets a
  synthesized id, and \<open>write_time\<close> the ISO timestamp read by \<^verbatim>\<open>_update_cache\<close>.
\<close>

record clock =
  stamp_time :: "nat \<Rightarrow> string"
  id_time :: "nat \<Rightarrow> string"
  write_time :: string

text \<open>
  \<^verbatim>\<open>_update_cache("findings", data)\<close>. \<^verbatim>\<open>write_text\<close> opens the file, which empties it,
  and then encodes the document: where that raises \<^verbatim>\<open>UnicodeEncodeError\<close> the file is
  left empty.
\<close>

definition update_cache_findings :: "string \<Rightarrow> dict list \<Rightarrow> cache_file \<Rightarrow> py_exn option \<times> cache_file" where
  "update_cache_findings now data file =
     (let c = (read_cache file)\<lparr>findings := data, lastUpdated := Some (lit now)\<rparr>
      in if cache_encodable c then (None, Some c)
         else (Some (ValueError (lit ''utf-8 codec cannot encode character: surrogates not allowed'')),
               None))"

text \<open>The decimal digits of a number, as \<^verbatim>\<open>str\<close> and an f-string write them.\<close>

fun str_of_nat :: "nat \<Rightarrow> pystr" where
  "str_of_nat n = (if n < 10 then [48 + n] else str_of_nat (n div 10) @ [48 + n mod 10])"

declare str_of_nat.simps [simp del]

definition id_of :: "dict \<Rightarrow> json" where
  "id_of f = dict_get f (lit ''id'') JNull"

text \<open>
  The body of the loop \<^verbatim>\<open>for i, f in enumerate(findings)\<close> on a \<^verbatim>\<open>dict\<close>: \<open>n\<close> is
  \<^verbatim>\<open>len(existing)\<close>.
\<close>

definition stamp :: "lib \<Rightarrow> clock \<Rightarrow> nat \<Rightarrow> nat \<Rightarrow> dict \<Rightarrow> dict" where
  "stamp L clk n i f =
     (let f1 = dict_set (lit ''savedAt'') (JStr (lit (stamp_time clk i))) f
      in if dict_has (lit ''id'') f1 then f1
         else dict_set (lit ''id'')
                (JStr (py_str L (dict_get f1 (lit ''type'') (JStr (lit ''unknown''))) @ lit ''-'' @
                       str_of_nat (n + i) @ lit ''-'' @ lit (id_time clk i))) f1)"

text \<open>
  The stamping loop followed by \<^verbatim>\<open>[f for f in findings if isinstance(f, dict)]\<close>: the
  index counts every item of the batch, the result keeps the objects only.
\<close>

fun stamped_dicts :: "lib \<Rightarrow> clock \<Rightarrow> nat \<Rightarrow> nat \<Rightarrow> json list \<Rightarrow> dict list" where
  "stamped_dicts L clk n i [] = []"
| "stamped_dicts L clk n i (JObj f # items) = stamp L clk n i f # stamped_dicts L clk n (Suc i) items"
| "stamped_dicts L clk n i (x # items) = stamped_dicts L clk n (Suc i) items"

text \<open>
  Membership in a Python \<^verbatim>\<open>set\<close> hashes the value and compares with \<^verbatim>\<open>==\<close>:
  \<^verbatim>\<open>True == 1\<close>, and a \<^verbatim>\<open>list\<close> or a \<^verbatim>\<open>dict\<close> raises \<^verbatim>\<open>TypeError\<close> (the
  messages are shortened here).
\<close>

datatype pykey = KNone | KInt int | KStr pystr

fun hash_key :: "json \<Rightarrow> py_exn + pykey" where
  "hash_key JNull = Inr KNone"
| "hash_key (JBool b) = Inr (KInt (if b then 1 else 0))"
| "hash_key (JNum n) = Inr (KInt n)"
| "hash_key (JStr s) = Inr (KStr s)"
| "hash_key (JArr xs) = Inl (TypeError (lit ''unhashable type: list''))"
| "hash_key (JObj d) = Inl (TypeError (lit ''unhashable type: dict''))"

text \<open>\<^verbatim>\<open>new_ids = {nf.get("id") for nf in findings}\<close>\<close>

fun collect_ids :: "dict list \<Rightarrow> py_exn + pykey set" where
  "collect_ids [] = Inr {}"
| "collect_ids (f # fs) =
     (case hash_key (id_of f) of
        Inl e \<Rightarrow> Inl e
      | Inr k \<Rightarrow> (case collect_ids fs of Inl e \<Rightarrow> Inl e | Inr ks \<Rightarrow> Inr (insert k ks)))"

text \<open>\<^verbatim>\<open>merged = [f for f in existing if f.get("id") not in new_ids]\<close>\<close>

fun keep_absent :: "pykey set \<Rightarrow> dict list \<Rightarrow> py_exn + dict list" where
  "keep_absent ids [] = Inr []"
| "keep_absent ids (f # fs) =
     (case hash_key (id_of f) of
        Inl e \<Rightarrow> Inl e
      | Inr k \<Rightarrow>
          (case keep_absent ids fs of
             Inl e \<Rightarrow> Inl e
           | Inr kept \<Rightarrow> Inr (if k \<in> ids then kept else f # kept)))"

text \<open>
  The argument of \<^verbatim>\<open>save_findings\<close> as the batch it stands for. \<open>Inr None\<close> is the early
  return where \<^verbatim>\<open>json.loads\<close> raises a \<^verbatim>\<open>ValueError\<close>; any other exception of
  \<^verbatim>\<open>json.loads\<close> passes the \<^verbatim>\<open>except (json.JSONDecodeError, ValueError)\<close>.
\<close>

definition as_batch :: "json \<Rightarrow> json list" where
  "as_batch v = (case v of JArr xs \<Rightarrow> xs | JObj d \<Rightarrow> [JObj d] | _ \<Rightarrow> [])"

definition parse_findings :: "lib \<Rightarrow> json \<Rightarrow> py_exn + json list option" where
  "parse_findings L arg =
     (case arg of
        JStr s \<Rightarrow>
          (case json_loads L s of
             Inl (ValueError m) \<Rightarrow> Inr None
           | Inl e \<Rightarrow> Inl e
           | Inr v \<Rightarrow> Inr (Some (as_batch v)))
      | _ \<Rightarrow> Inr (Some (as_batch arg)))"

definition save_findings ::
  "lib \<Rightarrow> clock \<Rightarrow> json \<Rightarrow> cache_file \<Rightarrow> (py_exn + dict) \<times> cache_file" where
  "save_findings L clk arg file =
     (case parse_findings L arg of
        Inl e \<Rightarrow> (Inl e, file)
      | Inr None \<Rightarrow>
          (Inr [(lit ''error'', JStr (lit ''findings must be a JSON array of objects'')),
                (lit ''saved'', JNum 0)],
           file)
      | Inr (Some items) \<Rightarrow>
          (let existing = findings (read_cache file);
               batch = stamped_dicts L clk (length existing) 0 items
           in case collect_ids batch of
                Inl e \<Rightarrow> (Inl e, file)
              | Inr new_ids \<Rightarrow>
                  (case keep_absent new_ids existing of
                     Inl e \<Rightarrow> (Inl e, file)
                   | Inr kept \<Rightarrow>
                       (let merged = kept @ batch
                        in case update_cache_findings (write_time clk) merged file of
                             (Some e, file') \<Rightarrow> (Inl e, file')
                           | (None, file') \<Rightarrow>
                               (Inr [(lit ''saved'', JNum (int (length batch))),
                                     (lit ''total'', JNum (int (length merged)))],
                                file')))))"

section \<open>Strings\<close>

text \<open>
  The white space of \<^verbatim>\<open>str.isspace\<close>, which \<^verbatim>\<open>str.strip\<close> removes: the code points 9 to
  13, 28 to 32, 133, 160, 5760, 8192 to 8202, 8232, 8233, 8239, 8287 and 12288.
\<close>

definition is_space :: "nat \<Rightarrow> bool" where
  "is_space c =
     ((9 \<le> c \<and> c \<le> 13) \<or> (28 \<le> c \<and> c \<le> 32) \<or> c = 133 \<or> c = 160 \<or> c = 5760 \<or>
      (8192 \<le> c \<and> c \<le> 8202) \<or> c = 8232 \<or> c = 8233 \<or> c = 8239 \<or> c = 8287 \<or> c = 12288)"

definition strip :: "pystr \<Rightarrow> pystr" where
  "strip s = rev (dropWhile is_space (rev (dropWhile is_space s)))"

text \<open>\<^verbatim>\<open>kw in s\<close> on strings.\<close>

fun contains :: "pystr \<Rightarrow> pystr \<Rightarrow> bool" where
  "contains kw [] = (kw = [])"
| "contains kw (c # cs) = (prefix kw (c # cs) \<or> contains kw cs)"

section \<open>Fetching and extraction\<close>

text \<open>
  What \<^verbatim>\<open>httpx.get\<close> returns: the status after redirects, the \<^verbatim>\<open>content-type\<close> header
  (empty when absent), the decoded text and the final URL. The network is a function of
  a state \<open>'w\<close> of the outside world, which a call may change; \<open>Inl\<close> is a transport
  failure (\<^verbatim>\<open>httpx.get\<close> raises).
\<close>

record http_response =
  status :: nat
  content_type :: pystr
  body :: pystr
  final_url :: pystr

type_synonym 'w http = "'w \<Rightarrow> pystr \<Rightarrow> (py_exn + http_response) \<times> 'w"

text \<open>
  The state of a crawl: the outside world, and the calls of \<^verbatim>\<open>_fetch_page\<close> so far, each
  with the URL requested and whether the call returned.
\<close>

record 'w net =
  world :: 'w
  fetches :: "(pystr \<times> bool) list"

definition MAX_CONTENT_LENGTH :: nat where
  "MAX_CONTENT_LENGTH = 500000"

text \<open>
  The helper \<^verbatim>\<open>_fetch_page\<close> (not the tool \<^verbatim>\<open>fetch_page\<close>), on a URL that is already
  a string. \<^verbatim>\<open>raise_for_status\<close> raises unless the status is 2xx.
\<close>

definition fetch_page :: "lib \<Rightarrow> 'w http \<Rightarrow> pystr \<Rightarrow> 'w net \<Rightarrow> (py_exn + pystr \<times> pystr) \<times> 'w net" where
  "fetch_page L get u s =
     (case get (world s) u of
        (Inl e, w) \<Rightarrow> (Inl e, \<lparr>world = w, fetches = fetches s @ [(u, False)]\<rparr>)
      | (Inr r, w) \<Rightarrow>
          if \<not> (200 \<le> status r \<and> status r < 300)
          then (Inl (HTTPError (status_message L (status r) (final_url r))),
                \<lparr>world = w, fetches = fetches s @ [(u, False)]\<rparr>)
          else if \<not> contains (lit ''text/html'') (content_type r) \<and>
                  \<not> contains (lit ''text/plain'') (content_type r)
          then (Inr (lit ''(Non-HTML content: '' @ content_type r @ lit '')'', final_url r),
                \<lparr>world = w, fetches = fetches s @ [(u, True)]\<rparr>)
          else (Inr (take MAX_CONTENT_LENGTH (body r), final_url r),
                \<lparr>world = w, fetches = fetches s @ [(u, True)]\<rparr>))"

text \<open>\<^verbatim>\<open>re.sub(r"\n{3,}", "\n\n", text)\<close>: \<open>n\<close> counts the line feeds just passed.\<close>

fun collapse_blank :: "nat \<Rightarrow> pystr \<Rightarrow> pystr" where
  "collapse_blank n [] = []"
| "collapse_blank n (c # cs) =
     (if c = 10 then (if 2 \<le> n then collapse_blank n cs else c # collapse_blank (Suc n) cs)
      else c # collapse_blank 0 cs)"

text \<open>\<^verbatim>\<open>_extract_text\<close>: it raises where BeautifulSoup does.\<close>

definition extract_text :: "lib \<Rightarrow> pystr \<Rightarrow> py_exn + pystr" where
  "extract_text L html =
     (case soup_text L html of
        Inl e \<Rightarrow> Inl e
      | Inr t \<Rightarrow> Inr (strip (collapse_blank 0 t)))"

record link =
  link_url :: pystr
  link_text :: pystr

definition skip_href :: "pystr \<Rightarrow> bool" where
  "skip_href href =
     (href = [] \<or> prefix (lit ''#'') href \<or> prefix (lit ''javascript:'') href \<or>
      prefix (lit ''mailto:'') href)"

text \<open>
  The loop of \<^verbatim>\<open>_extract_links\<close> over the anchors, with the set \<^verbatim>\<open>seen\<close> and the list
  \<^verbatim>\<open>links\<close> built so far.
\<close>

fun extract_links_loop ::
  "lib \<Rightarrow> pystr \<Rightarrow> (pystr \<times> pystr) list \<Rightarrow> pystr set \<Rightarrow> link list \<Rightarrow> py_exn + link list" where
  "extract_links_loop L base [] seen links = Inr links"
| "extract_links_loop L base (a # as) seen links =
     (let href = strip (fst a)
      in if skip_href href then extract_links_loop L base as seen links
         else (case urljoin L base href of
                 Inl e \<Rightarrow> Inl e
               | Inr absolute_url \<Rightarrow>
                   if absolute_url \<in> seen then extract_links_loop L base as seen links
                   else extract_links_loop L base as (insert absolute_url seen)
                          (links @ [\<lparr>link_url = absolute_url, link_text = take 200 (snd a)\<rparr>])))"

definition extract_links :: "lib \<Rightarrow> pystr \<Rightarrow> pystr \<Rightarrow> py_exn + link list" where
  "extract_links L html base =
     (case find_anchors L html of
        Inl e \<Rightarrow> Inl e
      | Inr anchors \<Rightarrow> extract_links_loop L base anchors {} [])"

definition is_same_site :: "lib \<Rightarrow> pystr \<Rightarrow> pystr \<Rightarrow> py_exn + bool" where
  "is_same_site L url1 url2 =
     (case urlparse L url1 of
        Inl e \<Rightarrow> Inl e
      | Inr p1 \<Rightarrow> (case urlparse L url2 of Inl e \<Rightarrow> Inl e | Inr p2 \<Rightarrow> Inr (netloc p1 = netloc p2)))"

definition keyword_list :: "pystr list" where
  "keyword_list =
     map lit
       [''syllabus'', ''homework'', ''assignment'', ''hw'', ''problem set'', ''pset'',
        ''exam'', ''midterm'', ''final'', ''quiz'', ''test'',
        ''office hour'', ''oh'', ''schedule'', ''calendar'',
        ''grade'', ''grading'', ''policy'', ''policies'',
        ''lecture'', ''slide'', ''note'', ''reading'',
        ''lab'', ''project'', ''recitation'', ''section'',
        ''ta'', ''staff'', ''instructor'', ''professor'',
        ''.pdf'', ''.docx'', ''.doc'']"

definition looks_interesting :: "lib \<Rightarrow> pystr \<Rightarrow> pystr \<Rightarrow> bool" where
  "looks_interesting L u t = list_ex (\<lambda>kw. contains kw (lower L (u @ lit '' '' @ t))) keyword_list"

section \<open>The crawl\<close>

record page =
  page_url :: pystr
  title :: pystr
  text_preview :: pystr
  links_on_page :: "nat option"

record crawl_result =
  source_url :: pystr
  pages_crawled :: "page list"
  interesting_links_found :: "link list"
  errors :: "(pystr \<times> pystr) list"

text \<open>The loop that builds \<^verbatim>\<open>interesting\<close>; \<^verbatim>\<open>_is_same_site\<close> may raise.\<close>

fun select_interesting :: "lib \<Rightarrow> pystr \<Rightarrow> link list \<Rightarrow> py_exn + link list" where
  "select_interesting L u [] = Inr []"
| "select_interesting L u (l # ls) =
     (if looks_interesting L (link_url l) (link_text l)
      then (case select_interesting L u ls of Inl e \<Rightarrow> Inl e | Inr r \<Rightarrow> Inr (l # r))
      else (case is_same_site L u (link_url l) of
              Inl e \<Rightarrow> Inl e
            | Inr same \<Rightarrow>
                (case select_interesting L u ls of
                   Inl e \<Rightarrow> Inl e
                 | Inr r \<Rightarrow> Inr (if same then l # r else r))))"

text \<open>\<^verbatim>\<open>parsed.path.lower().split(".")[-1] if "." in parsed.path else ""\<close>\<close>

definition extension :: "lib \<Rightarrow> pystr \<Rightarrow> pystr" where
  "extension L p =
     (if 46 \<in> set p then rev (takeWhile (\<lambda>c. c \<noteq> 46) (rev (lower L p))) else [])"

text \<open>
  The loop \<^verbatim>\<open>for link in interesting\<close>. It returns the exception that left it, if any
  (only \<^verbatim>\<open>urlparse\<close> stands outside the inner \<^verbatim>\<open>try\<close>), with the result as mutated so
  far. Inside the inner \<^verbatim>\<open>try\<close> stand \<^verbatim>\<open>_fetch_page\<close> and \<^verbatim>\<open>_extract_text\<close>: where either
  raises, the error is recorded and \<^verbatim>\<open>followed\<close> stays.
\<close>

fun follow_links ::
  "lib \<Rightarrow> 'w http \<Rightarrow> int \<Rightarrow> link list \<Rightarrow> nat \<Rightarrow> crawl_result \<Rightarrow> 'w net \<Rightarrow>
     py_exn option \<times> crawl_result \<times> 'w net" where
  "follow_links L get max_subpages [] followed results s = (None, results, s)"
| "follow_links L get max_subpages (l # ls) followed results s =
     (if int followed \<ge> max_subpages then (None, results, s)
      else (case urlparse L (link_url l) of
              Inl e \<Rightarrow> (Some e, results, s)
            | Inr parsed \<Rightarrow>
                if scheme parsed \<notin> {lit ''http'', lit ''https''}
                then follow_links L get max_subpages ls followed results s
                else if extension L (path parsed) \<in>
                          {lit ''zip'', lit ''tar'', lit ''gz'', lit ''mp4'', lit ''mov'', lit ''avi'',
                           lit ''mp3'', lit ''wav''}
                then follow_links L get max_subpages ls followed results s
                else (case fetch_page L get (link_url l) s of
                        (Inl e, s') \<Rightarrow>
                          follow_links L get max_subpages ls followed
                            (results\<lparr>errors := errors results @ [(link_url l, str_of_exn e)]\<rparr>) s'
                      | (Inr (sub_html, sub_final_url), s') \<Rightarrow>
                          (case extract_text L sub_html of
                             Inl e \<Rightarrow>
                               follow_links L get max_subpages ls followed
                                 (results\<lparr>errors := errors results @ [(link_url l, str_of_exn e)]\<rparr>) s'
                           | Inr sub_text \<Rightarrow>
                               follow_links L get max_subpages ls (Suc followed)
                                 (results\<lparr>pages_crawled := pages_crawled results @
                                    [\<lparr>page_url = sub_final_url,
                                      title = (if take 100 (link_text l) = [] then sub_final_url
                                               else take 100 (link_text l)),
                                      text_preview = take 2000 sub_text,
                                      links_on_page = None\<rparr>]\<rparr>) s'))))"

text \<open>The body of the outer \<^verbatim>\<open>try\<close> of \<^verbatim>\<open>crawl_source\<close>.\<close>

definition crawl_body ::
  "lib \<Rightarrow> 'w http \<Rightarrow> pystr \<Rightarrow> int \<Rightarrow> crawl_result \<Rightarrow> 'w net \<Rightarrow>
     py_exn option \<times> crawl_result \<times> 'w net" where
  "crawl_body L get u max_subpages results s =
     (case fetch_page L get u s of
        (Inl e, s') \<Rightarrow> (Some e, results, s')
      | (Inr (html, final), s') \<Rightarrow>
          (case extract_text L html of
             Inl e \<Rightarrow> (Some e, results, s')
           | Inr main_text \<Rightarrow>
               (case extract_links L html final of
                  Inl e \<Rightarrow> (Some e, results, s')
                | Inr all_links \<Rightarrow>
                    (let results1 = results\<lparr>pages_crawled := pages_crawled results @
                           [\<lparr>page_url = final, title = lit ''Homepage'',
                             text_preview = take 3000 main_text,
                             links_on_page = Some (length all_links)\<rparr>]\<rparr>
                     in case select_interesting L u all_links of
                          Inl e \<Rightarrow> (Some e, results1, s')
                        | Inr interesting \<Rightarrow>
                            follow_links L get max_subpages interesting 0
                              (results1\<lparr>interesting_links_found := take 30 interesting\<rparr>) s'))))"

text \<open>
  The tool \<^verbatim>\<open>crawl_source\<close>, started in the world \<open>w\<close>. The two coercions stand before
  the \<^verbatim>\<open>try\<close>; the \<^verbatim>\<open>except Exception\<close> records what left the body under the seed URL.
\<close>

definition crawl_source ::
  "lib \<Rightarrow> 'w http \<Rightarrow> json \<Rightarrow> json \<Rightarrow> 'w \<Rightarrow> (py_exn + crawl_result) \<times> 'w net" where
  "crawl_source L get url_arg max_arg w =
     (let u = coerce_str L url_arg; s = \<lparr>world = w, fetches = []\<rparr>
      in case coerce_int L max_arg 10 of
           Inl e \<Rightarrow> (Inl e, s)
         | Inr max_subpages \<Rightarrow>
             (case crawl_body L get u max_subpages
                     \<lparr>source_url = u, pages_crawled = [], interesting_links_found = [], errors = []\<rparr> s of
                (None, results, s') \<Rightarrow> (Inr results, s')
              | (Some e, results, s') \<Rightarrow>
                  (Inr (results\<lparr>errors := errors results @ [(u, str_of_exn e)]\<rparr>), s')))"

section \<open>Notions used to state the properties\<close>

text \<open>
  The successful and the failed calls of a trace of \<^verbatim>\<open>_fetch_page\<close> calls.
\<close>

definition successes :: "(pystr \<times> bool) list \<Rightarrow> nat" where
  "successes fs = length (filter snd fs)"

definition failures :: "(pystr \<times> bool) list \<Rightarrow> nat" where
  "failures fs = length (filter (\<lambda>f. \<not> snd f) fs)"

text \<open>
  A candidate the follow loop passes over without a fetch: the two \<^verbatim>\<open>continue\<close>
  branches of the loop.
\<close>

definition skipped :: "lib \<Rightarrow> url_parts \<Rightarrow> bool" where
  "skipped L parsed =
     (scheme parsed \<notin> {lit ''http'', lit ''https''} \<or>
      extension L (path parsed) \<in>
        {lit ''zip'', lit ''tar'', lit ''gz'', lit ''mp4'', lit ''mov'', lit ''avi'', lit ''mp3'', lit ''wav''})"

text \<open>
  An anchor whose stripped \<^verbatim>\<open>href\<close> is not empty, not a fragment, not a \<^verbatim>\<open>javascript:\<close>
  and not a \<^verbatim>\<open>mailto:\<close> target, and resolves against the base to the URL \<open>v\<close>.
\<close>

definition resolves :: "lib \<Rightarrow> pystr \<Rightarrow> pystr \<Rightarrow> pystr \<times> pystr \<Rightarrow> bool" where
  "resolves L base v a =
     (strip (fst a) \<noteq> [] \<and> \<not> prefix (lit ''#'') (strip (fst a)) \<and>
      \<not> prefix (lit ''javascript:'') (strip (fst a)) \<and> \<not> prefix (lit ''mailto:'') (strip (fst a)) \<and>
      urljoin L base (strip (fst a)) = Inr v)"

text \<open>
  The id of a finding as \<^verbatim>\<open>f.get("id")\<close> reads it, and the value Python compares ids by:
  a string, an integer (\<^verbatim>\<open>True\<close> is 1 and \<^verbatim>\<open>False\<close> is 0) or \<^verbatim>\<open>None\<close>; a list or an
  object has none, it cannot be hashed. A finding whose id has such a value; two findings
  whose ids Python takes for equal.
\<close>

definition finding_id :: "dict \<Rightarrow> json" where
  "finding_id f = (case map_of f (lit ''id'') of None \<Rightarrow> JNull | Some v \<Rightarrow> v)"

fun id_key :: "json \<Rightarrow> pykey option" where
  "id_key JNull = Some KNone"
| "id_key (JBool b) = Some (KInt (if b then 1 else 0))"
| "id_key (JNum n) = Some (KInt n)"
| "id_key (JStr s) = Some (KStr s)"
| "id_key (JArr xs) = None"
| "id_key (JObj d) = None"

definition hashable_id :: "dict \<Rightarrow> bool" where
  "hashable_id f = (id_key (finding_id f) \<noteq> None)"

definition same_id :: "dict \<Rightarrow> dict \<Rightarrow> bool" where
  "same_id f g = (id_key (finding_id f) = id_key (finding_id g))"

definition key_of :: "dict \<Rightarrow> pykey" where
  "key_of f = (case id_key (finding_id f) of Some k \<Rightarrow> k | None \<Rightarrow> KNone)"

section \<open>A small site and a small store, for the concrete instances\<close>

text \<open>
  A library stub for the pages under \<^verbatim>\<open>http://a.edu\<close>: a home page with nine anchors
  (one behind white space that is a fragment, one behind a no-break space and an em
  space, a \<^verbatim>\<open>javascript:\<close>, a \<^verbatim>\<open>mailto:\<close> and an empty target, two to the same page), and
  a parser that rejects the markup \<^verbatim>\<open><![foo]>\<close>. The server answers the home page, fails
  on \<^verbatim>\<open>/hw1\<close> with status 500, serves the rejected markup at \<^verbatim>\<open>/hw2\<close> and a PDF at
  \<^verbatim>\<open>/hw3\<close>. \<^verbatim>\<open>json.loads\<close> raises \<^verbatim>\<open>RecursionError\<close> on two thousand and more opening
  brackets.
\<close>

definition demo_anchors :: "(pystr \<times> pystr) list" where
  "demo_anchors =
     [(lit ''http://a.edu/hw1'', lit ''Homework 1''),
      (32 # lit ''#top'', lit ''Top''),
      (160 # 8195 # lit ''#intro'', lit ''Intro''),
      (lit ''javascript:void(0)'', lit ''Menu''),
      (lit ''mailto:ta@a.edu'', lit ''Mail''),
      ([], lit ''Empty''),
      (lit ''http://a.edu/hw2'', lit ''Homework 2''),
      (lit ''http://a.edu/hw3'', lit ''Homework 3''),
      (lit ''http://a.edu/hw1'', lit ''again'')]"

definition demo_lib :: lib where
  "demo_lib =
     \<lparr>json_loads = (\<lambda>s. if s = lit ''[]'' then Inr (JArr [])
                         else if 2000 \<le> length s \<and> list_all (\<lambda>c. c = 91) s
                         then Inl (RecursionError (lit ''maximum recursion depth exceeded''))
                         else Inl (ValueError (lit ''Expecting value''))),
      int_of_str = (\<lambda>s. if s = lit ''3'' then Some 3 else None),
      repr = (\<lambda>v. lit ''None''),
      lower = map (\<lambda>c. if 65 \<le> c \<and> c \<le> 90 then c + 32 else c),
      urlparse = (\<lambda>u. Inr \<lparr>scheme = takeWhile (\<lambda>c. c \<noteq> 58) u, netloc = lit ''a.edu'', path = drop 12 u\<rparr>),
      urljoin = (\<lambda>b h. Inr h),
      find_anchors = (\<lambda>h. if h = lit ''home'' then Inr demo_anchors
                           else if h = lit ''<![foo]>'' then Inl (MarkupError (lit ''markup rejected''))
                           else Inr []),
      soup_text = (\<lambda>h. if h = lit ''<![foo]>'' then Inl (MarkupError (lit ''markup rejected''))
                        else Inr h),
      status_message = (\<lambda>n u. lit ''Server error'')\<rparr>"

definition demo_get :: "unit http" where
  "demo_get w u =
     (if u = lit ''http://a.edu/''
      then Inr \<lparr>status = 200, content_type = lit ''text/html; charset=utf-8'', body = lit ''home'',
                final_url = u\<rparr>
      else if u = lit ''http://a.edu/hw1''
      then Inr \<lparr>status = 500, content_type = lit ''text/html'', body = lit ''error page'', final_url = u\<rparr>
      else if u = lit ''http://a.edu/hw2''
      then Inr \<lparr>status = 200, content_type = lit ''text/html'', body = lit ''<![foo]>'', final_url = u\<rparr>
      else if u = lit ''http://a.edu/hw3''
      then Inr \<lparr>status = 200, content_type = lit ''application/pdf'', body = lit ''pdf'', final_url = u\<rparr>
      else Inl (HTTPError (lit ''connection refused'')), w)"

definition demo_clock :: "string \<Rightarrow> clock" where
  "demo_clock t = \<lparr>stamp_time = (\<lambda>i. t), id_time = (\<lambda>i. ''120000''), write_time = t\<rparr>"

definition demo_cache :: cache where
  "demo_cache =
     \<lparr>findings = [[(lit ''id'', JStr (lit ''a'')), (lit ''title'', JStr (lit ''Syllabus''))],
                  [(lit ''id'', JStr (lit ''b'')), (lit ''title'', JStr (lit ''Midterm''))]],
      crawlLog = [], lastUpdated = None\<rparr>"


section \<open>String literals\<close>

lemma lit_eq_iff [simp]: "lit a = lit b \<longleftrightarrow> a = b"
  by (simp add: lit_def inj_map_eq_map inj_of_char)

lemma lit_eq_Nil_iff [simp]: "lit a = [] \<longleftrightarrow> a = []"
  by (simp add: lit_def)

lemma encodable_lit [simp]: "encodable (lit s)"
proof -
  have "of_char c mod 256 < (55296 :: nat)" for c :: char
    by (rule less_trans [OF mod_less_divisor]) simp_all
  then have "(of_char c :: nat) < 55296" for c :: char
    by simp
  then show ?thesis
    by (simp add: encodable_def lit_def list_all_iff surrogate_def not_le less_imp_le)
qed

lemma encodable_append [simp]: "encodable (s @ t) \<longleftrightarrow> encodable s \<and> encodable t"
  by (simp add: encodable_def)

section \<open>Properties of the coercion helpers\<close>

lemma int_or_default_returns: "\<exists>n. int_or_default L val dflt = Inr n"
  by (cases val) (auto simp: int_or_default_def split: option.splits)

lemma coerce_int_not_wrapped: "\<forall>d. val \<noteq> JObj d \<Longrightarrow> \<exists>n. coerce_int L val dflt = Inr n"
  using int_or_default_returns [of L val dflt]
  by (cases val) (auto simp: coerce_int_def)

text \<open>
  Claim C9, at the input where it fails: a count wrapped in an object whose value
  \<^verbatim>\<open>int\<close> rejects. Passed bare, \<^verbatim>\<open>None\<close> is coerced to the default 10 of
  \<^verbatim>\<open>crawl_source\<close>; wrapped as \<^verbatim>\<open>{"max_subpages": None}\<close>, the \<^verbatim>\<open>TypeError\<close> of
  \<^verbatim>\<open>int(None)\<close> leaves \<^verbatim>\<open>_coerce_int\<close>, since the wrapped branch converts outside the
  \<^verbatim>\<open>try\<close>, and \<^verbatim>\<open>crawl_source\<close> raises it before any fetch.
\<close>

theorem coerce_int_wrapped_raises:
  "coerce_int L JNull 10 = Inr 10 \<and>
   coerce_int L (JObj [(lit ''max_subpages'', JNull)]) 10 =
     Inl (TypeError (lit ''int() argument must be a string, a bytes-like object or a real number'')) \<and>
   crawl_source L get url_arg (JObj [(lit ''max_subpages'', JNull)]) w =
     (Inl (TypeError (lit ''int() argument must be a string, a bytes-like object or a real number'')),
      \<lparr>world = w, fetches = []\<rparr>)"
  by (simp add: coerce_int_def int_or_default_def crawl_source_def)

section \<open>Properties of the findings store\<close>











lemma same_id_iff:
  "hashable_id f \<Longrightarrow> hashable_id g \<Longrightarrow> same_id f g \<longleftrightarrow> key_of f = key_of g"
  by (auto simp: same_id_def hashable_id_def key_of_def)

lemma merge_filter:
  assumes "list_all hashable_id fs" and "list_all hashable_id new"
  shows "filter (\<lambda>f. key_of f \<notin> set (map key_of new)) fs = filter (\<lambda>f. \<not> list_ex (same_id f) new) fs"
proof (rule filter_cong [OF refl])
  fix f assume "f \<in> set fs"
  then have f: "hashable_id f" using assms(1) by (simp add: list_all_iff)
  have "list_ex (same_id f) new \<longleftrightarrow> (\<exists>g \<in> set new. key_of f = key_of g)"
    unfolding list_ex_iff using assms(2) same_id_iff [OF f] by (auto simp: list_all_iff)
  then show "(key_of f \<notin> set (map key_of new)) = (\<not> list_ex (same_id f) new)"
    by auto
qed





text \<open>
  Where the ids of the stored findings are pairwise different, and so are those of the
  stamped batch, the merge keeps them so: the one-finding-per-id invariant can only break
  through two findings of one batch.
\<close>

lemma merge_keeps_ids_apart:
  assumes "list_all hashable_id existing" and "list_all hashable_id batch"
    and "distinct (map key_of existing)" and "distinct (map key_of batch)"
  shows "distinct (map key_of (filter (\<lambda>f. \<not> list_ex (same_id f) batch) existing @ batch))"
proof -
  have "distinct (map key_of (filter (\<lambda>f. key_of f \<notin> set (map key_of batch)) existing @ batch))"
    using assms(3,4) by (auto simp: distinct_map_filter)
  then show ?thesis
    by (simp only: merge_filter [OF assms(1,2)])
qed

text \<open>
  Claim C4, at the input where it fails: a batch with two findings of the same id, saved
  to an empty store, leaves two stored findings with that id.
\<close>

theorem save_findings_duplicate_ids:
  "save_findings L clk (JArr [JObj [(lit ''id'', JStr (lit ''a'')), (lit ''title'', JStr (lit ''x''))],
                               JObj [(lit ''id'', JStr (lit ''a'')), (lit ''title'', JStr (lit ''y''))]]) None =
     (Inr [(lit ''saved'', JNum 2), (lit ''total'', JNum 2)],
      Some \<lparr>findings =
               [[(lit ''id'', JStr (lit ''a'')), (lit ''title'', JStr (lit ''x'')),
                 (lit ''savedAt'', JStr (lit (stamp_time clk 0)))],
                [(lit ''id'', JStr (lit ''a'')), (lit ''title'', JStr (lit ''y'')),
                 (lit ''savedAt'', JStr (lit (stamp_time clk 1)))]],
             crawlLog = [], lastUpdated = Some (lit (write_time clk))\<rparr>)"
  by (simp add: save_findings_def parse_findings_def as_batch_def read_cache_def stamp_def
      dict_has_def id_of_def dict_get_def update_cache_findings_def cache_encodable_def)





text \<open>
  Claim C7, as amended: on a string that \<^verbatim>\<open>json.loads\<close> rejects with a
  \<^verbatim>\<open>JSONDecodeError\<close> or another \<^verbatim>\<open>ValueError\<close>, \<^verbatim>\<open>save_findings\<close> returns the error object
  with \<^verbatim>\<open>saved\<close> 0 and the cache file is what it was; where \<^verbatim>\<open>json.loads\<close> raises
  anything else, that exception leaves \<^verbatim>\<open>save_findings\<close>, and the cache file is what it
  was as well.
\<close>

theorem save_findings_not_json:
  "(json_loads L s = Inl (ValueError m) \<longrightarrow>
      save_findings L clk (JStr s) file =
        (Inr [(lit ''error'', JStr (lit ''findings must be a JSON array of objects'')),
              (lit ''saved'', JNum 0)], file)) \<and>
   (json_loads L s = Inl e \<longrightarrow> (\<forall>m'. e \<noteq> ValueError m') \<longrightarrow>
      save_findings L clk (JStr s) file = (Inl e, file))"
  by (cases e) (auto simp: save_findings_def parse_findings_def)

theorem save_findings_not_json_witness:
  "json_loads demo_lib (lit ''[{id: '') = Inl (ValueError (lit ''Expecting value'')) \<and>
   save_findings demo_lib (demo_clock ''T1'') (JStr (lit ''[{id: '')) (Some demo_cache) =
     (Inr [(lit ''error'', JStr (lit ''findings must be a JSON array of objects'')),
           (lit ''saved'', JNum 0)],
      Some demo_cache) \<and>
   json_loads demo_lib (replicate 2000 91) = Inl (RecursionError (lit ''maximum recursion depth exceeded'')) \<and>
   save_findings demo_lib (demo_clock ''T1'') (JStr (replicate 2000 91)) (Some demo_cache) =
     (Inl (RecursionError (lit ''maximum recursion depth exceeded'')), Some demo_cache)"
proof -
  have no: "json_loads demo_lib (lit ''[{id: '') = Inl (ValueError (lit ''Expecting value''))"
    by (simp add: demo_lib_def list_all_iff lit_def)
  have "length (replicate 2000 (91 :: nat)) \<noteq> length (lit ''[]'')"
    by (simp add: lit_def)
  then have "replicate 2000 (91 :: nat) \<noteq> lit ''[]''"
    by metis
  then have deep: "json_loads demo_lib (replicate 2000 91) =
      Inl (RecursionError (lit ''maximum recursion depth exceeded''))"
    by (simp add: demo_lib_def list_all_iff)
  from save_findings_not_json [of demo_lib "lit ''[{id: ''" "lit ''Expecting value''" "demo_clock ''T1''"
      "Some demo_cache"]
    save_findings_not_json [of demo_lib "replicate 2000 91" _ "demo_clock ''T1''" "Some demo_cache"
      "RecursionError (lit ''maximum recursion depth exceeded'')"]
    no deep
  show ?thesis
    by simp
qed

text \<open>
  Claim C7 as stated fails on a string that is not JSON and on which \<^verbatim>\<open>json.loads\<close>
  raises \<^verbatim>\<open>RecursionError\<close>, two thousand opening brackets: the
  \<^verbatim>\<open>except (json.JSONDecodeError, ValueError)\<close> does not catch it and \<^verbatim>\<open>save_findings\<close>
  raises.
\<close>

theorem save_findings_deep_nesting_raises:
  "fst (save_findings demo_lib (demo_clock ''T1'') (JStr (replicate 2000 91)) (Some demo_cache)) =
     Inl (RecursionError (lit ''maximum recursion depth exceeded''))"
proof -
  have "length (replicate 2000 (91 :: nat)) \<noteq> length (lit ''[]'')"
    by (simp add: lit_def)
  then have "replicate 2000 (91 :: nat) \<noteq> lit ''[]''"
    by metis
  then show ?thesis
    by (simp add: save_findings_def parse_findings_def demo_lib_def list_all_iff)
qed




section \<open>Properties of link extraction\<close>

lemma strip_keeps_prefix:
  assumes "prefix p h" and "p \<noteq> []" and "\<not> is_space (hd p)" and "\<not> is_space (last p)"
  shows "prefix p (strip h)"
proof -
  from assms(1) obtain t where h: "h = p @ t" by (auto simp: prefix_def)
  from assms(2,3) have front: "dropWhile is_space h = h"
    unfolding h by (cases p) simp_all
  from assms(2,4) have "\<exists>x \<in> set (rev p). \<not> is_space x"
    by (metis last_in_set set_rev)
  moreover from assms(2,4) have "dropWhile is_space (rev p) = rev p"
    by (cases p rule: rev_cases) simp_all
  ultimately have "\<exists>x. dropWhile is_space (rev t @ rev p) = x @ rev p"
    by (cases "\<forall>c \<in> set (rev t). is_space c") (auto simp: dropWhile_append)
  then obtain x where "dropWhile is_space (rev h) = x @ rev p"
    unfolding h by auto
  then show ?thesis
    by (simp add: strip_def front)
qed

text \<open>A raw \<^verbatim>\<open>href\<close> of one of the four excluded shapes is still one after \<^verbatim>\<open>strip\<close>.\<close>

lemma skip_href_strip:
  assumes "h = [] \<or> prefix (lit ''#'') h \<or> prefix (lit ''javascript:'') h \<or> prefix (lit ''mailto:'') h"
  shows "skip_href (strip h)"
proof -
  from assms consider "h = []" | "prefix (lit ''#'') h" | "prefix (lit ''javascript:'') h"
    | "prefix (lit ''mailto:'') h"
    by auto
  then show ?thesis
  proof cases
    case 1
    then show ?thesis by (simp add: skip_href_def strip_def)
  next
    case 2
    then show ?thesis
      using strip_keeps_prefix [of "lit ''#''" h] by (simp add: skip_href_def is_space_def lit_def)
  next
    case 3
    then show ?thesis
      using strip_keeps_prefix [of "lit ''javascript:''" h]
      by (simp add: skip_href_def is_space_def lit_def)
  next
    case 4
    then show ?thesis
      using strip_keeps_prefix [of "lit ''mailto:''" h]
      by (simp add: skip_href_def is_space_def lit_def)
  qed
qed

lemma extract_links_loop_filter:
  "extract_links_loop L base
     (filter (\<lambda>a. \<not> (fst a = [] \<or> prefix (lit ''#'') (fst a) \<or> prefix (lit ''javascript:'') (fst a) \<or>
                      prefix (lit ''mailto:'') (fst a))) as) seen links =
   extract_links_loop L base as seen links"
proof (induction as arbitrary: seen links)
  case Nil
  show ?case by simp
next
  case (Cons a as)
  show ?case
  proof (cases "fst a = [] \<or> prefix (lit ''#'') (fst a) \<or> prefix (lit ''javascript:'') (fst a) \<or>
                prefix (lit ''mailto:'') (fst a)")
    case True
    from skip_href_strip [OF this] True Cons.IH show ?thesis
      by simp
  next
    case False
    with Cons.IH show ?thesis
      by (simp add: Let_def split: sum.splits)
  qed
qed

lemma resolves_iff:
  "resolves L base v a \<longleftrightarrow> \<not> skip_href (strip (fst a)) \<and> urljoin L base (strip (fst a)) = Inr v"
  by (auto simp: resolves_def skip_href_def)

text \<open>
  The invariant of the loop: what it appends has pairwise different URLs, none of them
  seen before, each from the first anchor left that resolves to it; and every anchor that
  resolves does so to a URL seen before or appended.
\<close>

lemma extract_links_loop_sound:
  "extract_links_loop L base as seen links = Inr out \<Longrightarrow>
   \<exists>more. out = links @ more \<and> distinct (map link_url more) \<and>
     (\<forall>l \<in> set more. link_url l \<notin> seen \<and>
        (\<exists>a. find (resolves L base (link_url l)) as = Some a \<and> link_text l = take 200 (snd a))) \<and>
     (\<forall>a \<in> set as. \<forall>v. resolves L base v a \<longrightarrow> v \<in> seen \<or> v \<in> link_url ` set more)"
proof (induction as arbitrary: seen links)
  case Nil
  then show ?case by simp
next
  case (Cons a as)
  show ?case
  proof (cases "skip_href (strip (fst a))")
    case True
    with Cons.prems have "extract_links_loop L base as seen links = Inr out" by simp
    from Cons.IH [OF this] True show ?thesis
      by (auto simp: resolves_iff)
  next
    case False
    with Cons.prems obtain u where u: "urljoin L base (strip (fst a)) = Inr u"
      by (cases "urljoin L base (strip (fst a))") auto
    show ?thesis
    proof (cases "u \<in> seen")
      case True
      with Cons.prems False u have "extract_links_loop L base as seen links = Inr out" by simp
      from Cons.IH [OF this] obtain more where more:
        "out = links @ more" "distinct (map link_url more)"
        "\<forall>l \<in> set more. link_url l \<notin> seen \<and>
           (\<exists>a. find (resolves L base (link_url l)) as = Some a \<and> link_text l = take 200 (snd a))"
        "\<forall>a \<in> set as. \<forall>v. resolves L base v a \<longrightarrow> v \<in> seen \<or> v \<in> link_url ` set more"
        by blast
      have other: "\<forall>l \<in> set more. \<not> resolves L base (link_url l) a"
        using more(3) True u by (auto simp: resolves_iff)
      show ?thesis
      proof (intro exI [of _ more] conjI ballI allI impI)
        show "out = links @ more" by (rule more(1))
        show "distinct (map link_url more)" by (rule more(2))
      next
        fix l assume "l \<in> set more"
        then show "link_url l \<notin> seen" using more(3) by auto
      next
        fix l assume "l \<in> set more"
        then show "\<exists>a'. find (resolves L base (link_url l)) (a # as) = Some a' \<and>
                        link_text l = take 200 (snd a')"
          using more(3) other by (cases a) auto
      next
        fix b v assume "b \<in> set (a # as)" "resolves L base v b"
        then show "v \<in> seen \<or> v \<in> link_url ` set more"
          using more(4) u True by (auto simp: resolves_iff)
      qed
    next
      case fresh: False
      let ?new = "\<lparr>link_url = u, link_text = take 200 (snd a)\<rparr>"
      from Cons.prems False u fresh
      have "extract_links_loop L base as (insert u seen) (links @ [?new]) = Inr out" by simp
      from Cons.IH [OF this] obtain more where more:
        "out = (links @ [?new]) @ more" "distinct (map link_url more)"
        "\<forall>l \<in> set more. link_url l \<notin> insert u seen \<and>
           (\<exists>a. find (resolves L base (link_url l)) as = Some a \<and> link_text l = take 200 (snd a))"
        "\<forall>a \<in> set as. \<forall>v. resolves L base v a \<longrightarrow> v \<in> insert u seen \<or> v \<in> link_url ` set more"
        by blast
      have other: "\<forall>l \<in> set more. \<not> resolves L base (link_url l) a"
        using more(3) u by (auto simp: resolves_iff)
      have first: "resolves L base u a"
        using False u by (simp add: resolves_iff)
      show ?thesis
      proof (intro exI [of _ "?new # more"] conjI ballI allI impI)
        show "out = links @ ?new # more" using more(1) by simp
        show "distinct (map link_url (?new # more))" using more(2,3) by auto
      next
        fix l assume "l \<in> set (?new # more)"
        then show "link_url l \<notin> seen" using more(3) fresh by auto
      next
        fix l assume "l \<in> set (?new # more)"
        then show "\<exists>a'. find (resolves L base (link_url l)) (a # as) = Some a' \<and>
                        link_text l = take 200 (snd a')"
          using more(3) other first by (cases a) auto
      next
        fix b v assume "b \<in> set (a # as)" "resolves L base v b"
        then show "v \<in> seen \<or> v \<in> link_url ` set (?new # more)"
          using more(4) u by (auto simp: resolves_iff)
      qed
    qed
  qed
qed

text \<open>
  \<^verbatim>\<open>_extract_links\<close> returns whenever the parser accepts the markup and \<^verbatim>\<open>urljoin\<close>
  returns on the anchors that are not skipped.
\<close>

lemma extract_links_loop_returns:
  "list_all (\<lambda>a. skip_href (strip (fst a)) \<or> (\<exists>u. urljoin L base (strip (fst a)) = Inr u)) as \<Longrightarrow>
   \<exists>out. extract_links_loop L base as seen links = Inr out"
  by (induction as arbitrary: seen links) (auto simp: Let_def)

text \<open>
  Claim C8: whatever the markup and the base URL, the links \<^verbatim>\<open>_extract_links\<close> returns
  are those of the anchors left once every anchor with an empty, fragment-only,
  \<^verbatim>\<open>javascript:\<close> or \<^verbatim>\<open>mailto:\<close> \<^verbatim>\<open>href\<close> is removed; no two of them have the same URL;
  each is the URL of the first anchor that resolves to it (its stripped \<^verbatim>\<open>href\<close> being
  none of the four), with that anchor's text cut to 200 characters; and every anchor
  that resolves has its URL among them.
\<close>

theorem extract_links_first_wins:
  assumes "find_anchors L html = Inr anchors"
    and "extract_links L html base = Inr links"
  shows "extract_links_loop L base
           (filter (\<lambda>a. \<not> (fst a = [] \<or> prefix (lit ''#'') (fst a) \<or>
                            prefix (lit ''javascript:'') (fst a) \<or> prefix (lit ''mailto:'') (fst a)))
              anchors) {} [] = Inr links \<and>
         distinct (map link_url links) \<and>
         (\<forall>l \<in> set links. \<exists>a. find (resolves L base (link_url l)) anchors = Some a \<and>
                                 link_text l = take 200 (snd a)) \<and>
         (\<forall>a \<in> set anchors. \<forall>v. resolves L base v a \<longrightarrow> v \<in> link_url ` set links)"
proof -
  from assms have loop: "extract_links_loop L base anchors {} [] = Inr links"
    by (simp add: extract_links_def)
  have removed: "extract_links_loop L base
           (filter (\<lambda>a. \<not> (fst a = [] \<or> prefix (lit ''#'') (fst a) \<or>
                            prefix (lit ''javascript:'') (fst a) \<or> prefix (lit ''mailto:'') (fst a)))
              anchors) {} [] = Inr links"
    unfolding extract_links_loop_filter by (rule loop)
  from extract_links_loop_sound [OF loop]
  have rest: "distinct (map link_url links) \<and>
         (\<forall>l \<in> set links. \<exists>a. find (resolves L base (link_url l)) anchors = Some a \<and>
                                 link_text l = take 200 (snd a)) \<and>
         (\<forall>a \<in> set anchors. \<forall>v. resolves L base v a \<longrightarrow> v \<in> link_url ` set links)"
    by simp
  from removed rest show ?thesis
    by (rule conjI)
qed

theorem extract_links_first_wins_witness:
  "find_anchors demo_lib (lit ''home'') = Inr demo_anchors \<and>
   extract_links demo_lib (lit ''home'') (lit ''http://a.edu/'') =
     Inr [\<lparr>link_url = lit ''http://a.edu/hw1'', link_text = lit ''Homework 1''\<rparr>,
          \<lparr>link_url = lit ''http://a.edu/hw2'', link_text = lit ''Homework 2''\<rparr>,
          \<lparr>link_url = lit ''http://a.edu/hw3'', link_text = lit ''Homework 3''\<rparr>] \<and>
   filter (\<lambda>a. \<not> (fst a = [] \<or> prefix (lit ''#'') (fst a) \<or>
                   prefix (lit ''javascript:'') (fst a) \<or> prefix (lit ''mailto:'') (fst a)))
     demo_anchors =
     [(lit ''http://a.edu/hw1'', lit ''Homework 1''), (32 # lit ''#top'', lit ''Top''),
      (160 # 8195 # lit ''#intro'', lit ''Intro''), (lit ''http://a.edu/hw2'', lit ''Homework 2''),
      (lit ''http://a.edu/hw3'', lit ''Homework 3''), (lit ''http://a.edu/hw1'', lit ''again'')] \<and>
   extract_links_loop demo_lib (lit ''http://a.edu/'')
     (filter (\<lambda>a. \<not> (fst a = [] \<or> prefix (lit ''#'') (fst a) \<or>
                      prefix (lit ''javascript:'') (fst a) \<or> prefix (lit ''mailto:'') (fst a)))
        demo_anchors) {} [] =
     Inr [\<lparr>link_url = lit ''http://a.edu/hw1'', link_text = lit ''Homework 1''\<rparr>,
          \<lparr>link_url = lit ''http://a.edu/hw2'', link_text = lit ''Homework 2''\<rparr>,
          \<lparr>link_url = lit ''http://a.edu/hw3'', link_text = lit ''Homework 3''\<rparr>] \<and>
   find (resolves demo_lib (lit ''http://a.edu/'') (lit ''http://a.edu/hw1'')) demo_anchors =
     Some (lit ''http://a.edu/hw1'', lit ''Homework 1'')"
proof -
  have anchors: "find_anchors demo_lib (lit ''home'') = Inr demo_anchors"
    by (simp add: demo_lib_def)
  have run: "extract_links demo_lib (lit ''home'') (lit ''http://a.edu/'') =
     Inr [\<lparr>link_url = lit ''http://a.edu/hw1'', link_text = lit ''Homework 1''\<rparr>,
          \<lparr>link_url = lit ''http://a.edu/hw2'', link_text = lit ''Homework 2''\<rparr>,
          \<lparr>link_url = lit ''http://a.edu/hw3'', link_text = lit ''Homework 3''\<rparr>]"
    by (simp add: extract_links_def demo_lib_def demo_anchors_def skip_href_def strip_def
        is_space_def lit_def)
  have left: "filter (\<lambda>a. \<not> (fst a = [] \<or> prefix (lit ''#'') (fst a) \<or>
                   prefix (lit ''javascript:'') (fst a) \<or> prefix (lit ''mailto:'') (fst a)))
     demo_anchors =
     [(lit ''http://a.edu/hw1'', lit ''Homework 1''), (32 # lit ''#top'', lit ''Top''),
      (160 # 8195 # lit ''#intro'', lit ''Intro''), (lit ''http://a.edu/hw2'', lit ''Homework 2''),
      (lit ''http://a.edu/hw3'', lit ''Homework 3''), (lit ''http://a.edu/hw1'', lit ''again'')]"
    by (simp add: demo_anchors_def lit_def)
  have first: "find (resolves demo_lib (lit ''http://a.edu/'') (lit ''http://a.edu/hw1'')) demo_anchors =
     Some (lit ''http://a.edu/hw1'', lit ''Homework 1'')"
    by (simp add: resolves_def demo_lib_def demo_anchors_def strip_def is_space_def lit_def)
  from extract_links_first_wins [OF anchors run] anchors run left first show ?thesis
    by simp
qed

section \<open>Properties of the crawl\<close>

lemma successes_simps [simp]:
  "successes [] = 0"
  "successes (fs @ gs) = successes fs + successes gs"
  "successes ((u, b) # fs) = (if b then 1 else 0) + successes fs"
  by (simp_all add: successes_def)

lemma failures_simps [simp]:
  "failures [] = 0"
  "failures (fs @ gs) = failures fs + failures gs"
  "failures ((u, b) # fs) = (if b then 0 else 1) + failures fs"
  by (simp_all add: failures_def)

lemma length_fetches: "length fs = successes fs + failures fs"
  by (induction fs) (auto simp: successes_def failures_def)

lemma fetch_page_Inl:
  "fetch_page L get u s = (Inl e, s') \<Longrightarrow> fetches s' = fetches s @ [(u, False)]"
  by (auto simp: fetch_page_def split: prod.splits sum.splits if_splits)

lemma fetch_page_Inr:
  "fetch_page L get u s = (Inr p, s') \<Longrightarrow> fetches s' = fetches s @ [(u, True)]"
  by (auto simp: fetch_page_def split: prod.splits sum.splits if_splits)

text \<open>One iteration of the follow loop, branch by branch.\<close>

lemma follow_links_stop:
  "int k \<ge> N \<Longrightarrow> follow_links L get N ls k res s = (None, res, s)"
  by (cases ls) simp_all

lemma follow_links_raise:
  "\<not> int k \<ge> N \<Longrightarrow> urlparse L (link_url l) = Inl e \<Longrightarrow>
   follow_links L get N (l # ls) k res s = (Some e, res, s)"
  by simp

lemma follow_links_skip:
  "\<not> int k \<ge> N \<Longrightarrow> urlparse L (link_url l) = Inr parsed \<Longrightarrow> skipped L parsed \<Longrightarrow>
   follow_links L get N (l # ls) k res s = follow_links L get N ls k res s"
  unfolding skipped_def by auto

lemma follow_links_failed:
  "\<not> int k \<ge> N \<Longrightarrow> urlparse L (link_url l) = Inr parsed \<Longrightarrow> \<not> skipped L parsed \<Longrightarrow>
   fetch_page L get (link_url l) s = (Inl e, s1) \<Longrightarrow>
   follow_links L get N (l # ls) k res s =
     follow_links L get N ls k (res\<lparr>errors := errors res @ [(link_url l, str_of_exn e)]\<rparr>) s1"
  unfolding skipped_def by auto

lemma follow_links_unreadable:
  "\<not> int k \<ge> N \<Longrightarrow> urlparse L (link_url l) = Inr parsed \<Longrightarrow> \<not> skipped L parsed \<Longrightarrow>
   fetch_page L get (link_url l) s = (Inr (sub_html, sub_final_url), s1) \<Longrightarrow>
   extract_text L sub_html = Inl e \<Longrightarrow>
   follow_links L get N (l # ls) k res s =
     follow_links L get N ls k (res\<lparr>errors := errors res @ [(link_url l, str_of_exn e)]\<rparr>) s1"
  unfolding skipped_def by auto

lemma follow_links_fetched:
  "\<not> int k \<ge> N \<Longrightarrow> urlparse L (link_url l) = Inr parsed \<Longrightarrow> \<not> skipped L parsed \<Longrightarrow>
   fetch_page L get (link_url l) s = (Inr (sub_html, sub_final_url), s1) \<Longrightarrow>
   extract_text L sub_html = Inr sub_text \<Longrightarrow>
   follow_links L get N (l # ls) k res s =
     follow_links L get N ls (Suc k)
       (res\<lparr>pages_crawled := pages_crawled res @
          [\<lparr>page_url = sub_final_url,
            title = (if take 100 (link_text l) = [] then sub_final_url else take 100 (link_text l)),
            text_preview = take 2000 sub_text,
            links_on_page = None\<rparr>]\<rparr>) s1"
  unfolding skipped_def by auto

text \<open>
  The follow loop, started with \<open>k\<close> pages followed: the calls it adds to the trace are
  at most one per candidate; each of them adds a page or an entry to \<^verbatim>\<open>errors\<close>, a failed
  one always an entry; and the pages added stay within what is left of the budget.
\<close>

lemma follow_links_trace:
  "follow_links L get N ls k res s = (ex, res', s') \<Longrightarrow>
   \<exists>new p e. fetches s' = fetches s @ new \<and>
         length new = p + e \<and>
         failures new \<le> e \<and>
         int (k + p) \<le> max (int k) N \<and>
         length (errors res') = length (errors res) + e \<and>
         length (pages_crawled res') = length (pages_crawled res) + p \<and>
         length new \<le> length ls"
proof (induction ls arbitrary: k res s)
  case Nil
  then show ?case by simp
next
  case (Cons l ls)
  show ?case
  proof (cases "int k \<ge> N")
    case True
    with Cons.prems show ?thesis by (simp add: follow_links_stop)
  next
    case open_budget: False
    show ?thesis
    proof (cases "urlparse L (link_url l)")
      case (Inl e)
      with Cons.prems open_budget show ?thesis by (simp add: follow_links_raise)
    next
      case parsed: (Inr parsed)
      show ?thesis
      proof (cases "skipped L parsed")
        case True
        with Cons.prems have "follow_links L get N ls k res s = (ex, res', s')"
          by (simp only: follow_links_skip [OF open_budget parsed True])
        from Cons.IH [OF this] obtain new p e where
          "fetches s' = fetches s @ new" "length new = p + e" "failures new \<le> e"
          "int (k + p) \<le> max (int k) N"
          "length (errors res') = length (errors res) + e"
          "length (pages_crawled res') = length (pages_crawled res) + p"
          "length new \<le> length ls"
          by blast
        then show ?thesis
          by (intro exI [of _ new] exI [of _ p] exI [of _ e]) simp
      next
        case False
        obtain r s1 where f: "fetch_page L get (link_url l) s = (r, s1)"
          by (cases "fetch_page L get (link_url l) s")
        show ?thesis
        proof (cases r)
          case (Inl e)
          with Cons.prems f
          have "follow_links L get N ls k
                  (res\<lparr>errors := errors res @ [(link_url l, str_of_exn e)]\<rparr>) s1 = (ex, res', s')"
            by (simp only: follow_links_failed [OF open_budget parsed False])
          from Cons.IH [OF this] obtain new p e' where
            "fetches s' = fetches s1 @ new" "length new = p + e'" "failures new \<le> e'"
            "int (k + p) \<le> max (int k) N"
            "length (errors res') = length (errors res) + 1 + e'"
            "length (pages_crawled res') = length (pages_crawled res) + p"
            "length new \<le> length ls"
            by auto
          with fetch_page_Inl [OF f [unfolded Inl]] show ?thesis
            by (intro exI [of _ "(link_url l, False) # new"] exI [of _ p] exI [of _ "Suc e'"]) simp
        next
          case (Inr pr)
          obtain html final where pr: "pr = (html, final)" by (cases pr)
          note fetched = f [unfolded Inr pr]
          show ?thesis
          proof (cases "extract_text L html")
            case (Inl e)
            with Cons.prems
            have "follow_links L get N ls k
                    (res\<lparr>errors := errors res @ [(link_url l, str_of_exn e)]\<rparr>) s1 = (ex, res', s')"
              by (simp only: follow_links_unreadable [OF open_budget parsed False fetched Inl])
            from Cons.IH [OF this] obtain new p e' where
              "fetches s' = fetches s1 @ new" "length new = p + e'" "failures new \<le> e'"
              "int (k + p) \<le> max (int k) N"
              "length (errors res') = length (errors res) + 1 + e'"
              "length (pages_crawled res') = length (pages_crawled res) + p"
              "length new \<le> length ls"
              by auto
            with fetch_page_Inr [OF fetched] show ?thesis
              by (intro exI [of _ "(link_url l, True) # new"] exI [of _ p] exI [of _ "Suc e'"]) simp
          next
            case extracted: (Inr sub_text)
            from Cons.prems
            obtain res1 where
              "follow_links L get N ls (Suc k) res1 s1 = (ex, res', s')"
              "length (errors res1) = length (errors res)"
              "length (pages_crawled res1) = length (pages_crawled res) + 1"
              by (simp only: follow_links_fetched [OF open_budget parsed False fetched extracted]) simp
            from Cons.IH [OF this(1)] this(2,3) obtain new p e where
              "fetches s' = fetches s1 @ new" "length new = p + e" "failures new \<le> e"
              "int (Suc k + p) \<le> max (int (Suc k)) N"
              "length (errors res') = length (errors res) + e"
              "length (pages_crawled res') = length (pages_crawled res) + 1 + p"
              "length new \<le> length ls"
              by auto
            with fetch_page_Inr [OF fetched] open_budget show ?thesis
              by (intro exI [of _ "(link_url l, True) # new"] exI [of _ "Suc p"] exI [of _ e]) auto
          qed
        qed
      qed
    qed
  qed
qed

lemma crawl_body_trace:
  assumes "crawl_body L get u N res s = (ex, res', s')" and "fetches s = []"
    and "errors res = []" and "pages_crawled res = []"
  shows "int (length (pages_crawled res')) \<le> 1 + max 0 N \<and>
         length (fetches s') \<le>
           length (pages_crawled res') + length (errors res') + (if ex = None then 0 else 1) \<and>
         failures (fetches s') \<le> length (errors res') + (if ex = None then 0 else 1)"
proof -
  obtain r s1 where f: "fetch_page L get u s = (r, s1)"
    by (cases "fetch_page L get u s")
  show ?thesis
  proof (cases r)
    case (Inl e)
    with assms f fetch_page_Inl [OF f [unfolded Inl]] show ?thesis
      by (auto simp: crawl_body_def)
  next
    case (Inr p)
    obtain html final where p: "p = (html, final)" by (cases p)
    have s1: "fetches s1 = [(u, True)]"
      using fetch_page_Inr [OF f [unfolded Inr]] assms(2) by simp
    show ?thesis
    proof (cases "extract_text L html")
      case (Inl e)
      with assms f Inr p s1 show ?thesis
        by (auto simp: crawl_body_def)
    next
      case extracted: (Inr main_text)
      show ?thesis
      proof (cases "extract_links L html final")
        case (Inl e)
        with assms f Inr p s1 extracted show ?thesis
          by (auto simp: crawl_body_def)
      next
        case links: (Inr all_links)
        show ?thesis
        proof (cases "select_interesting L u all_links")
          case (Inl e)
          with assms f Inr p s1 extracted links show ?thesis
            by (auto simp: crawl_body_def)
        next
          case (Inr interesting)
          with assms f \<open>r = Inr p\<close> p extracted links obtain res1 where
            "follow_links L get N interesting 0 res1 s1 = (ex, res', s')" "errors res1 = []"
            "length (pages_crawled res1) = 1"
            by (auto simp: crawl_body_def Let_def)
          from follow_links_trace [OF this(1)] this(2,3) s1 show ?thesis
            by auto
        qed
      qed
    qed
  qed
qed

text \<open>
  Once the budget is coerced, \<^verbatim>\<open>crawl_source\<close> returns a result (no exception leaves
  it); the pages of the result are at most one more than the budget, or one when the
  budget is negative; every call of \<^verbatim>\<open>_fetch_page\<close> has a page or an entry in \<^verbatim>\<open>errors\<close>,
  and every failed one an entry.
\<close>

lemma crawl_source_trace:
  assumes "coerce_int L max_arg 10 = Inr N"
  shows "\<exists>r s'. crawl_source L get url_arg max_arg w = (Inr r, s') \<and>
           int (length (pages_crawled r)) \<le> 1 + max 0 N \<and>
           length (fetches s') \<le> length (pages_crawled r) + length (errors r) \<and>
           failures (fetches s') \<le> length (errors r)"
proof -
  let ?u = "coerce_str L url_arg"
  let ?res = "\<lparr>source_url = ?u, pages_crawled = [], interesting_links_found = [], errors = []\<rparr>"
  let ?s = "\<lparr>world = w, fetches = []\<rparr>"
  obtain ex res' s' where b: "crawl_body L get ?u N ?res ?s = (ex, res', s')"
    by (cases "crawl_body L get ?u N ?res ?s")
  from crawl_body_trace [OF b] have
    "int (length (pages_crawled res')) \<le> 1 + max 0 N"
    "length (fetches s') \<le>
       length (pages_crawled res') + length (errors res') + (if ex = None then 0 else 1)"
    "failures (fetches s') \<le> length (errors res') + (if ex = None then 0 else 1)"
    by simp_all
  with b assms show ?thesis
    by (cases ex) (simp_all add: crawl_source_def Let_def)
qed

text \<open>The crawl of the small site with a budget of one page, and with a budget of -1.\<close>

lemma demo_crawl:
  "crawl_source demo_lib demo_get (JStr (lit ''http://a.edu/'')) (JNum 1) () =
     (Inr \<lparr>source_url = lit ''http://a.edu/'',
           pages_crawled =
             [\<lparr>page_url = lit ''http://a.edu/'', title = lit ''Homepage'', text_preview = lit ''home'',
               links_on_page = Some 3\<rparr>,
              \<lparr>page_url = lit ''http://a.edu/hw3'', title = lit ''Homework 3'',
               text_preview = lit ''(Non-HTML content: application/pdf)'', links_on_page = None\<rparr>],
           interesting_links_found =
             [\<lparr>link_url = lit ''http://a.edu/hw1'', link_text = lit ''Homework 1''\<rparr>,
              \<lparr>link_url = lit ''http://a.edu/hw2'', link_text = lit ''Homework 2''\<rparr>,
              \<lparr>link_url = lit ''http://a.edu/hw3'', link_text = lit ''Homework 3''\<rparr>],
           errors = [(lit ''http://a.edu/hw1'', lit ''Server error''),
                     (lit ''http://a.edu/hw2'', lit ''markup rejected'')]\<rparr>,
      \<lparr>world = (),
       fetches = [(lit ''http://a.edu/'', True), (lit ''http://a.edu/hw1'', False),
                  (lit ''http://a.edu/hw2'', True), (lit ''http://a.edu/hw3'', True)]\<rparr>)"
  by (simp add: crawl_source_def crawl_body_def coerce_str_def coerce_int_def int_or_default_def
      fetch_page_def demo_lib_def demo_get_def demo_anchors_def extract_links_def skip_href_def
      strip_def is_space_def looks_interesting_def keyword_list_def extension_def extract_text_def
      MAX_CONTENT_LENGTH_def is_same_site_def Let_def lit_def)

lemma demo_crawl_negative:
  "crawl_source demo_lib demo_get (JStr (lit ''http://a.edu/'')) (JNum (- 1)) () =
     (Inr \<lparr>source_url = lit ''http://a.edu/'',
           pages_crawled =
             [\<lparr>page_url = lit ''http://a.edu/'', title = lit ''Homepage'', text_preview = lit ''home'',
               links_on_page = Some 3\<rparr>],
           interesting_links_found =
             [\<lparr>link_url = lit ''http://a.edu/hw1'', link_text = lit ''Homework 1''\<rparr>,
              \<lparr>link_url = lit ''http://a.edu/hw2'', link_text = lit ''Homework 2''\<rparr>,
              \<lparr>link_url = lit ''http://a.edu/hw3'', link_text = lit ''Homework 3''\<rparr>],
           errors = []\<rparr>,
      \<lparr>world = (), fetches = [(lit ''http://a.edu/'', True)]\<rparr>)"
  by (simp add: crawl_source_def crawl_body_def coerce_str_def coerce_int_def int_or_default_def
      fetch_page_def demo_lib_def demo_get_def demo_anchors_def extract_links_def skip_href_def
      strip_def is_space_def looks_interesting_def keyword_list_def extract_text_def
      MAX_CONTENT_LENGTH_def is_same_site_def Let_def lit_def)

text \<open>
  Claim C1, as amended: for every seed URL and every budget \<open>N\<close> that the coercion
  yields, \<^verbatim>\<open>crawl_source\<close> returns, and its result has at most \<open>1 + max 0 N\<close> pages,
  however many candidates there are; every call of \<^verbatim>\<open>_fetch_page\<close>, successful or
  failed, has a page or an entry of \<^verbatim>\<open>errors\<close>, and every failed call an entry. A
  candidate whose fetch fails, and one whose fetch succeeds but whose text
  \<^verbatim>\<open>_extract_text\<close> cannot extract, leaves the count \<open>k\<close> of followed pages as it was,
  gets its failure appended to \<^verbatim>\<open>errors\<close>, and the loop goes on with the candidates
  after it.
\<close>

theorem crawl_source_successful_fetches:
  assumes "coerce_int L max_arg 10 = Inr N"
  shows "(\<exists>r s'. crawl_source L get url_arg max_arg w = (Inr r, s') \<and>
            int (length (pages_crawled r)) \<le> 1 + max 0 N \<and>
            successes (fetches s') + failures (fetches s') \<le>
              length (pages_crawled r) + length (errors r) \<and>
            failures (fetches s') \<le> length (errors r)) \<and>
         (int k < N \<longrightarrow> urlparse L (link_url l) = Inr parsed \<longrightarrow> \<not> skipped L parsed \<longrightarrow>
          fetch_page L get (link_url l) s = (Inl e, s1) \<longrightarrow>
          follow_links L get N (l # ls) k res s =
            follow_links L get N ls k (res\<lparr>errors := errors res @ [(link_url l, str_of_exn e)]\<rparr>) s1) \<and>
         (int k < N \<longrightarrow> urlparse L (link_url l) = Inr parsed \<longrightarrow> \<not> skipped L parsed \<longrightarrow>
          fetch_page L get (link_url l) s = (Inr (sub_html, sub_final_url), s1) \<longrightarrow>
          extract_text L sub_html = Inl e \<longrightarrow>
          follow_links L get N (l # ls) k res s =
            follow_links L get N ls k (res\<lparr>errors := errors res @ [(link_url l, str_of_exn e)]\<rparr>) s1)"
proof (intro conjI impI)
  show "\<exists>r s'. crawl_source L get url_arg max_arg w = (Inr r, s') \<and>
          int (length (pages_crawled r)) \<le> 1 + max 0 N \<and>
          successes (fetches s') + failures (fetches s') \<le>
            length (pages_crawled r) + length (errors r) \<and>
          failures (fetches s') \<le> length (errors r)"
    using crawl_source_trace [OF assms, of get url_arg w]
    by (simp add: length_fetches)
next
  assume "int k < N" and "urlparse L (link_url l) = Inr parsed" and "\<not> skipped L parsed"
    and "fetch_page L get (link_url l) s = (Inl e, s1)"
  then show "follow_links L get N (l # ls) k res s =
      follow_links L get N ls k (res\<lparr>errors := errors res @ [(link_url l, str_of_exn e)]\<rparr>) s1"
    by (intro follow_links_failed) simp_all
next
  assume "int k < N" and "urlparse L (link_url l) = Inr parsed" and "\<not> skipped L parsed"
    and "fetch_page L get (link_url l) s = (Inr (sub_html, sub_final_url), s1)"
    and "extract_text L sub_html = Inl e"
  then show "follow_links L get N (l # ls) k res s =
      follow_links L get N ls k (res\<lparr>errors := errors res @ [(link_url l, str_of_exn e)]\<rparr>) s1"
    by (intro follow_links_unreadable) simp_all
qed

theorem crawl_source_successful_fetches_witness:
  "coerce_int demo_lib (JNum 1) 10 = Inr 1 \<and>
   (\<exists>r s'. crawl_source demo_lib demo_get (JStr (lit ''http://a.edu/'')) (JNum 1) () = (Inr r, s') \<and>
      length (pages_crawled r) = 2 \<and> successes (fetches s') = 3 \<and> failures (fetches s') = 1 \<and>
      length (errors r) = 2) \<and>
   urlparse demo_lib (lit ''http://a.edu/hw1'') =
     Inr \<lparr>scheme = lit ''http'', netloc = lit ''a.edu'', path = lit ''/hw1''\<rparr> \<and>
   \<not> skipped demo_lib \<lparr>scheme = lit ''http'', netloc = lit ''a.edu'', path = lit ''/hw1''\<rparr> \<and>
   fetch_page demo_lib demo_get (lit ''http://a.edu/hw1'')
       \<lparr>world = (), fetches = [(lit ''http://a.edu/'', True)]\<rparr> =
     (Inl (HTTPError (lit ''Server error'')),
      \<lparr>world = (), fetches = [(lit ''http://a.edu/'', True), (lit ''http://a.edu/hw1'', False)]\<rparr>) \<and>
   follow_links demo_lib demo_get 1
     [\<lparr>link_url = lit ''http://a.edu/hw1'', link_text = lit ''Homework 1''\<rparr>,
      \<lparr>link_url = lit ''http://a.edu/hw2'', link_text = lit ''Homework 2''\<rparr>] 0
     \<lparr>source_url = lit ''http://a.edu/'', pages_crawled = [], interesting_links_found = [], errors = []\<rparr>
     \<lparr>world = (), fetches = [(lit ''http://a.edu/'', True)]\<rparr> =
   follow_links demo_lib demo_get 1
     [\<lparr>link_url = lit ''http://a.edu/hw2'', link_text = lit ''Homework 2''\<rparr>] 0
     \<lparr>source_url = lit ''http://a.edu/'', pages_crawled = [], interesting_links_found = [],
      errors = [(lit ''http://a.edu/hw1'', lit ''Server error'')]\<rparr>
     \<lparr>world = (), fetches = [(lit ''http://a.edu/'', True), (lit ''http://a.edu/hw1'', False)]\<rparr> \<and>
   urlparse demo_lib (lit ''http://a.edu/hw2'') =
     Inr \<lparr>scheme = lit ''http'', netloc = lit ''a.edu'', path = lit ''/hw2''\<rparr> \<and>
   \<not> skipped demo_lib \<lparr>scheme = lit ''http'', netloc = lit ''a.edu'', path = lit ''/hw2''\<rparr> \<and>
   fetch_page demo_lib demo_get (lit ''http://a.edu/hw2'')
       \<lparr>world = (), fetches = [(lit ''http://a.edu/'', True)]\<rparr> =
     (Inr (lit ''<![foo]>'', lit ''http://a.edu/hw2''),
      \<lparr>world = (), fetches = [(lit ''http://a.edu/'', True), (lit ''http://a.edu/hw2'', True)]\<rparr>) \<and>
   extract_text demo_lib (lit ''<![foo]>'') = Inl (MarkupError (lit ''markup rejected'')) \<and>
   follow_links demo_lib demo_get 1
     [\<lparr>link_url = lit ''http://a.edu/hw2'', link_text = lit ''Homework 2''\<rparr>,
      \<lparr>link_url = lit ''http://a.edu/hw3'', link_text = lit ''Homework 3''\<rparr>] 0
     \<lparr>source_url = lit ''http://a.edu/'', pages_crawled = [], interesting_links_found = [], errors = []\<rparr>
     \<lparr>world = (), fetches = [(lit ''http://a.edu/'', True)]\<rparr> =
   follow_links demo_lib demo_get 1
     [\<lparr>link_url = lit ''http://a.edu/hw3'', link_text = lit ''Homework 3''\<rparr>] 0
     \<lparr>source_url = lit ''http://a.edu/'', pages_crawled = [], interesting_links_found = [],
      errors = [(lit ''http://a.edu/hw2'', lit ''markup rejected'')]\<rparr>
     \<lparr>world = (), fetches = [(lit ''http://a.edu/'', True), (lit ''http://a.edu/hw2'', True)]\<rparr>"
proof -
  let ?l1 = "\<lparr>link_url = lit ''http://a.edu/hw1'', link_text = lit ''Homework 1''\<rparr>"
  let ?l2 = "\<lparr>link_url = lit ''http://a.edu/hw2'', link_text = lit ''Homework 2''\<rparr>"
  let ?l3 = "\<lparr>link_url = lit ''http://a.edu/hw3'', link_text = lit ''Homework 3''\<rparr>"
  let ?res = "\<lparr>source_url = lit ''http://a.edu/'', pages_crawled = [], interesting_links_found = [],
               errors = []\<rparr>"
  let ?s = "\<lparr>world = (), fetches = [(lit ''http://a.edu/'', True)]\<rparr>"
  have budget: "coerce_int demo_lib (JNum 1) 10 = Inr 1"
    by (simp add: coerce_int_def int_or_default_def)
  have open_budget: "int 0 < 1"
    by simp
  have parsed1: "urlparse demo_lib (link_url ?l1) =
      Inr \<lparr>scheme = lit ''http'', netloc = lit ''a.edu'', path = lit ''/hw1''\<rparr>"
    by (simp add: demo_lib_def lit_def)
  have followed1: "\<not> skipped demo_lib \<lparr>scheme = lit ''http'', netloc = lit ''a.edu'', path = lit ''/hw1''\<rparr>"
    by (simp add: skipped_def extension_def lit_def)
  have failed: "fetch_page demo_lib demo_get (link_url ?l1) ?s =
     (Inl (HTTPError (lit ''Server error'')),
      \<lparr>world = (), fetches = [(lit ''http://a.edu/'', True), (lit ''http://a.edu/hw1'', False)]\<rparr>)"
    by (simp add: fetch_page_def demo_get_def demo_lib_def)
  have parsed2: "urlparse demo_lib (link_url ?l2) =
      Inr \<lparr>scheme = lit ''http'', netloc = lit ''a.edu'', path = lit ''/hw2''\<rparr>"
    by (simp add: demo_lib_def lit_def)
  have followed2: "\<not> skipped demo_lib \<lparr>scheme = lit ''http'', netloc = lit ''a.edu'', path = lit ''/hw2''\<rparr>"
    by (simp add: skipped_def extension_def lit_def)
  have fetched: "fetch_page demo_lib demo_get (link_url ?l2) ?s =
     (Inr (lit ''<![foo]>'', lit ''http://a.edu/hw2''),
      \<lparr>world = (), fetches = [(lit ''http://a.edu/'', True), (lit ''http://a.edu/hw2'', True)]\<rparr>)"
    by (simp add: fetch_page_def demo_get_def demo_lib_def MAX_CONTENT_LENGTH_def lit_def)
  have unreadable: "extract_text demo_lib (lit ''<![foo]>'') = Inl (MarkupError (lit ''markup rejected''))"
    by (simp add: extract_text_def demo_lib_def)
  have step1: "follow_links demo_lib demo_get 1 (?l1 # [?l2]) 0 ?res ?s =
     follow_links demo_lib demo_get 1 [?l2] 0
       (?res\<lparr>errors := errors ?res @ [(link_url ?l1, str_of_exn (HTTPError (lit ''Server error'')))]\<rparr>)
       \<lparr>world = (), fetches = [(lit ''http://a.edu/'', True), (lit ''http://a.edu/hw1'', False)]\<rparr>"
    using crawl_source_successful_fetches [OF budget, THEN conjunct2, THEN conjunct1, rule_format,
        OF open_budget parsed1 followed1 failed]
    by simp
  have step2: "follow_links demo_lib demo_get 1 (?l2 # [?l3]) 0 ?res ?s =
     follow_links demo_lib demo_get 1 [?l3] 0
       (?res\<lparr>errors := errors ?res @ [(link_url ?l2, str_of_exn (MarkupError (lit ''markup rejected'')))]\<rparr>)
       \<lparr>world = (), fetches = [(lit ''http://a.edu/'', True), (lit ''http://a.edu/hw2'', True)]\<rparr>"
    using crawl_source_successful_fetches [OF budget, THEN conjunct2, THEN conjunct2, rule_format,
        OF open_budget parsed2 followed2 fetched unreadable]
    by simp
  have total: "\<exists>r s'. crawl_source demo_lib demo_get (JStr (lit ''http://a.edu/'')) (JNum 1) () = (Inr r, s') \<and>
      length (pages_crawled r) = 2 \<and> successes (fetches s') = 3 \<and> failures (fetches s') = 1 \<and>
      length (errors r) = 2"
    by (simp add: demo_crawl)
  from budget total parsed1 followed1 failed step1 parsed2 followed2 fetched unreadable step2
  show ?thesis
    by simp
qed

text \<open>
  Claim C1 as stated fails for a negative budget: with the budget -1 the seed page is
  still fetched, one successful fetch against the claimed bound of \<open>1 + (-1) = 0\<close>. It
  fails for a page whose text cannot be extracted as well: with a budget of one page, the
  crawl of the small site fetches the seed, the page with the rejected markup and the
  PDF, three successful fetches against the claimed bound of \<open>1 + 1\<close>.
\<close>

theorem crawl_source_budget_exceeded:
  "successes (fetches (snd (crawl_source demo_lib demo_get (JStr (lit ''http://a.edu/'')) (JNum (- 1)) ()))) = 1 \<and>
   \<not> int (successes (fetches (snd (crawl_source demo_lib demo_get (JStr (lit ''http://a.edu/''))
                                      (JNum (- 1)) ()))))
       \<le> 1 + (- 1) \<and>
   successes (fetches (snd (crawl_source demo_lib demo_get (JStr (lit ''http://a.edu/'')) (JNum 1) ()))) = 3 \<and>
   \<not> int (successes (fetches (snd (crawl_source demo_lib demo_get (JStr (lit ''http://a.edu/''))
                                      (JNum 1) ()))))
       \<le> 1 + 1"
  by (simp add: demo_crawl_negative demo_crawl)

text \<open>
  Claim C2, as amended: for every seed URL and every budget \<open>N\<close> that the coercion
  yields, the calls of \<^verbatim>\<open>_fetch_page\<close> that one \<^verbatim>\<open>crawl_source\<close> makes, failed ones
  included, are at most \<open>1 + max 0 N\<close> plus the number of entries of \<^verbatim>\<open>errors\<close>: a fetch
  that fails, or whose text cannot be extracted, is recorded and does not count against
  the budget.
\<close>

theorem crawl_source_network_calls:
  assumes "coerce_int L max_arg 10 = Inr N"
  shows "\<exists>r s'. crawl_source L get url_arg max_arg w = (Inr r, s') \<and>
            int (length (fetches s')) \<le> 1 + max 0 N + int (length (errors r))"
proof -
  from crawl_source_trace [OF assms, of get url_arg w] obtain r s' where
    "crawl_source L get url_arg max_arg w = (Inr r, s')"
    "int (length (pages_crawled r)) \<le> 1 + max 0 N"
    "length (fetches s') \<le> length (pages_crawled r) + length (errors r)"
    by blast
  then show ?thesis
    by (intro exI [of _ r] exI [of _ s']) simp
qed

theorem crawl_source_network_calls_witness:
  "coerce_int demo_lib (JNum 1) 10 = Inr 1 \<and>
   (\<exists>r s'. crawl_source demo_lib demo_get (JStr (lit ''http://a.edu/'')) (JNum 1) () = (Inr r, s') \<and>
      length (fetches s') = 4 \<and> length (errors r) = 2 \<and>
      int (length (fetches s')) \<le> 1 + max 0 1 + int (length (errors r)))"
  using crawl_source_network_calls [of demo_lib "JNum 1" 1 demo_get "JStr (lit ''http://a.edu/'')" "()"]
  by (simp add: demo_crawl coerce_int_def int_or_default_def)

text \<open>
  Claim C2 as stated fails: with a budget of one page, the crawl of the small site makes
  four calls (the seed, a page that fails, a page whose markup is rejected, a page that
  is kept) against the claimed bound of \<open>1 + 1\<close>.
\<close>

theorem crawl_source_failed_calls_uncounted:
  "length (fetches (snd (crawl_source demo_lib demo_get (JStr (lit ''http://a.edu/'')) (JNum 1) ()))) = 4 \<and>
   \<not> int (length (fetches (snd (crawl_source demo_lib demo_get (JStr (lit ''http://a.edu/''))
                                  (JNum 1) ()))))
       \<le> 1 + 1"
  by (simp add: demo_crawl)

text \<open>
  Claim C6: when the fetch of the seed URL fails (\<^verbatim>\<open>httpx.get\<close> raises, or the status
  after redirects is not 2xx), \<^verbatim>\<open>crawl_source\<close> returns a result: its \<^verbatim>\<open>errors\<close> is one
  entry under the seed URL, its \<^verbatim>\<open>pages_crawled\<close> is empty, and the one call made is the
  failed one.
\<close>

theorem crawl_source_seed_failure:
  assumes "coerce_int L max_arg 10 = Inr N"
    and "u = coerce_str L url_arg"
    and "(\<exists>e. fst (get w u) = Inl e) \<or>
         (\<exists>r. fst (get w u) = Inr r \<and> \<not> (200 \<le> status r \<and> status r < 300))"
  shows "\<exists>s'. crawl_source L get url_arg max_arg w =
           (Inr \<lparr>source_url = u, pages_crawled = [], interesting_links_found = [],
                 errors = [(u, case fst (get w u) of
                                 Inl e \<Rightarrow> str_of_exn e
                               | Inr r \<Rightarrow> status_message L (status r) (final_url r))]\<rparr>, s') \<and>
           fetches s' = [(u, False)]"
  using assms
  by (auto simp: crawl_source_def crawl_body_def fetch_page_def Let_def split: prod.splits sum.splits)

theorem crawl_source_seed_failure_witness:
  "coerce_int demo_lib (JNum 10) 10 = Inr 10 \<and>
   lit ''http://a.edu/hw1'' = coerce_str demo_lib (JStr (lit ''http://a.edu/hw1'')) \<and>
   status (projr (fst (demo_get () (lit ''http://a.edu/hw1'')))) = 500 \<and>
   (\<exists>s'. crawl_source demo_lib demo_get (JStr (lit ''http://a.edu/hw1'')) (JNum 10) () =
      (Inr \<lparr>source_url = lit ''http://a.edu/hw1'', pages_crawled = [], interesting_links_found = [],
            errors = [(lit ''http://a.edu/hw1'', lit ''Server error'')]\<rparr>, s') \<and>
      fetches s' = [(lit ''http://a.edu/hw1'', False)])"
  using crawl_source_seed_failure [of demo_lib "JNum 10" 10 "lit ''http://a.edu/hw1''"
      "JStr (lit ''http://a.edu/hw1'')" demo_get "()"]
  by (simp add: coerce_int_def int_or_default_def coerce_str_def demo_get_def demo_lib_def)

end
